theory Spec2Isabelle
  imports Main
begin

section \<open>create\_github\_labels.py: data model\<close>

text \<open>
  The script talks to the GitHub API through the \<open>requests\<close> library and prints one
  status line per label. Its observable behaviour is the sequence of HTTP calls it makes
  and of lines it prints, so a run is modelled as the list of these events in the order
  in which they happen, together with the exception (if any) that ended it.

  Python values that the script handles (the label dictionaries of the catalog, and
  whatever \<open>response.json()\<close> decodes) are values of \<open>pyval\<close>. A \<open>str\<close> is a
  \<open>string\<close>; \<open>bytes\<close> are a \<open>string\<close> too, one character per byte. A \<open>dict\<close> is
  the list of its items in insertion order, with pairwise distinct keys. A \<open>float\<close> is
  carried by the text of its \<open>repr\<close>.
\<close>

datatype pyval =
    PNone
  | PBool bool
  | PInt int
  | PFloat string
  | PStr string
  | PList "pyval list"
  | PDict "(string \<times> pyval) list"

type_synonym bytes = string

text \<open>
  The exceptions that can end the script: a fault raised inside a \<open>requests\<close> call, a
  body that \<open>response.json()\<close> cannot decode, and the two errors of iterating or
  subscripting a decoded value of the wrong shape. Nothing in the script catches them.
\<close>

datatype error = ConnectionError | JSONDecodeError | TypeError | KeyError

datatype verb = GET | DELETE | POST

text \<open>
  A call \<open>requests.get(url, headers=h)\<close>, \<open>requests.delete(url, headers=h)\<close> or
  \<open>requests.post(url, headers=h, json=label)\<close>, by its arguments.
\<close>

record request =
  verb :: verb
  url :: string
  headers :: "(string \<times> string) list"
  json :: "pyval option"

text \<open>
  A response object, by what the script reads of it: \<open>status_code\<close>, \<open>content\<close>
  and the result of calling \<open>json()\<close> on it.
\<close>

record response =
  status_code :: int
  content :: bytes
  json_value :: "error + pyval"

text \<open>
  The remote side: the \<open>k\<close>-th HTTP call of a run (counted from 0) either raises or
  returns a response.
\<close>

type_synonym transport = "nat \<Rightarrow> error + response"

datatype event = Sent request | Printed string

type_synonym run = "event list \<times> error option"

section \<open>Python built-ins used by the script\<close>

definition hexdigit :: "nat \<Rightarrow> char" where
  "hexdigit d = ''0123456789abcdef'' ! d"

definition hex2 :: "char \<Rightarrow> string" where
  "hex2 c = [hexdigit (of_char c div 16), hexdigit (of_char c mod 16)]"

text \<open>Quote selection of \<open>repr\<close>: double quotes only when the text has a single quote
  and no double quote.\<close>

definition repr_quote :: "string \<Rightarrow> char" where
  "repr_quote s = (if CHR 0x27 \<in> set s \<and> CHR 0x22 \<notin> set s then CHR 0x22 else CHR 0x27)"

text \<open>\<open>repr\<close> of one byte of a \<open>bytes\<close> object, inside quotes \<open>q\<close>.\<close>

definition esc_byte :: "char \<Rightarrow> char \<Rightarrow> string" where
  "esc_byte q c =
     (if c = q \<or> c = CHR 0x5C then [CHR 0x5C, c]
      else if c = CHR 0x09 then [CHR 0x5C, CHR ''t'']
      else if c = CHR 0x0A then [CHR 0x5C, CHR ''n'']
      else if c = CHR 0x0D then [CHR 0x5C, CHR ''r'']
      else if (of_char c :: nat) < 32 \<or> (of_char c :: nat) \<ge> 127
        then [CHR 0x5C, CHR ''x''] @ hex2 c
      else [c])"

text \<open>\<open>repr(b)\<close> for \<open>b\<close> of type \<open>bytes\<close>: what an f-string prints for
  \<open>{response.content}\<close>.\<close>

definition bytes_repr :: "bytes \<Rightarrow> string" where
  "bytes_repr b =
     (let q = repr_quote b in [CHR ''b'', q] @ concat (map (esc_byte q) b) @ [q])"

text \<open>\<open>repr\<close> of one character of a \<open>str\<close> (code points up to 255): the characters
  0x80 to 0xA0 and 0xAD are not printable.\<close>

definition esc_char :: "char \<Rightarrow> char \<Rightarrow> string" where
  "esc_char q c =
     (if c = q \<or> c = CHR 0x5C then [CHR 0x5C, c]
      else if c = CHR 0x09 then [CHR 0x5C, CHR ''t'']
      else if c = CHR 0x0A then [CHR 0x5C, CHR ''n'']
      else if c = CHR 0x0D then [CHR 0x5C, CHR ''r'']
      else if (of_char c :: nat) < 32 \<or> (127 \<le> (of_char c :: nat) \<and> (of_char c :: nat) \<le> 160)
              \<or> (of_char c :: nat) = 173
        then [CHR 0x5C, CHR ''x''] @ hex2 c
      else [c])"

definition str_repr :: "string \<Rightarrow> string" where
  "str_repr s = (let q = repr_quote s in [q] @ concat (map (esc_char q) s) @ [q])"

fun digits :: "nat \<Rightarrow> string" where
  "digits n = (if n < 10 then [hexdigit n] else digits (n div 10) @ [hexdigit (n mod 10)])"

declare digits.simps [simp del]

definition int_str :: "int \<Rightarrow> string" where
  "int_str i = (if i < 0 then CHR ''-'' # digits (nat (- i)) else digits (nat i))"

fun join :: "string \<Rightarrow> string list \<Rightarrow> string" where
  "join sep [] = []"
| "join sep [x] = x"
| "join sep (x # y # ys) = x @ sep @ join sep (y # ys)"

fun py_repr :: "pyval \<Rightarrow> string" where
  "py_repr PNone = ''None''"
| "py_repr (PBool b) = (if b then ''True'' else ''False'')"
| "py_repr (PInt i) = int_str i"
| "py_repr (PFloat s) = s"
| "py_repr (PStr s) = str_repr s"
| "py_repr (PList xs) = ''['' @ join '', '' (map py_repr xs) @ '']''"
| "py_repr (PDict kvs) =
     ''{'' @ join '', '' (map (\<lambda>kv. str_repr (fst kv) @ '': '' @ py_repr (snd kv)) kvs) @ ''}''"

text \<open>An f-string field \<open>{v}\<close>: the text itself for a \<open>str\<close>, \<open>str(v)\<close> otherwise,
  which for the other types is \<open>repr(v)\<close>.\<close>

fun py_format :: "pyval \<Rightarrow> string" where
  "py_format (PStr s) = s"
| "py_format v = py_repr v"

text \<open>\<open>for label in v\<close>: the items of a list, the keys of a dict, the characters of a
  str; anything else is not iterable.\<close>

fun py_iter :: "pyval \<Rightarrow> error + pyval list" where
  "py_iter (PList xs) = Inr xs"
| "py_iter (PDict kvs) = Inr (map (\<lambda>kv. PStr (fst kv)) kvs)"
| "py_iter (PStr s) = Inr (map (\<lambda>c. PStr [c]) s)"
| "py_iter v = Inl TypeError"

text \<open>\<open>label['name']\<close>: a lookup in a dict; a str or a list cannot be indexed by a
  str, and the other values cannot be subscripted at all.\<close>

fun py_getitem :: "pyval \<Rightarrow> string \<Rightarrow> error + pyval" where
  "py_getitem (PDict kvs) k = (case map_of kvs k of None \<Rightarrow> Inl KeyError | Some v \<Rightarrow> Inr v)"
| "py_getitem v k = Inl TypeError"

section \<open>The script\<close>

definition labels_url :: "string \<Rightarrow> string \<Rightarrow> string \<Rightarrow> string" where
  "labels_url api_url repo_owner repo_name =
     api_url @ ''/repos/'' @ repo_owner @ ''/'' @ repo_name @ ''/labels''"

definition calls :: "event list \<Rightarrow> nat" where
  "calls evs = length (filter (\<lambda>e. case e of Sent _ \<Rightarrow> True | Printed _ \<Rightarrow> False) evs)"

text \<open>The body of the \<open>for\<close> loop of \<open>delete_existing_labels\<close> (lines 70 to 80), run
  over the labels still to visit; \<open>k\<close> is the number of HTTP calls made so far.\<close>

fun delete_loop ::
  "string \<Rightarrow> string \<Rightarrow> string \<Rightarrow> (string \<times> string) list \<Rightarrow> transport \<Rightarrow> nat \<Rightarrow> pyval list \<Rightarrow> run"
where
  "delete_loop api_url repo_owner repo_name hdrs net k [] = ([], None)"
| "delete_loop api_url repo_owner repo_name hdrs net k (label # rest) =
     (case py_getitem label ''name'' of
        Inl e \<Rightarrow> ([], Some e)
      | Inr name \<Rightarrow>
          let rq = \<lparr>verb = DELETE,
                    url = labels_url api_url repo_owner repo_name @ ''/'' @ py_format name,
                    headers = hdrs, json = None\<rparr>
          in (case net k of
                Inl e \<Rightarrow> ([Sent rq], Some e)
              | Inr delete_response \<Rightarrow>
                  let line =
                        (if status_code delete_response = 204
                         then ''Successfully deleted label: '' @ py_format name
                         else ''Failed to delete label: '' @ py_format name @ '' - ''
                              @ bytes_repr (content delete_response));
                      (evs, r) = delete_loop api_url repo_owner repo_name hdrs net (Suc k) rest
                  in (Sent rq # Printed line # evs, r)))"

definition delete_existing_labels ::
  "string \<Rightarrow> string \<Rightarrow> string \<Rightarrow> (string \<times> string) list \<Rightarrow> transport \<Rightarrow> nat \<Rightarrow> run"
where
  "delete_existing_labels api_url repo_owner repo_name hdrs net k =
     (let rq = \<lparr>verb = GET, url = labels_url api_url repo_owner repo_name,
                headers = hdrs, json = None\<rparr>
      in case net k of
           Inl e \<Rightarrow> ([Sent rq], Some e)
         | Inr response \<Rightarrow>
             if status_code response = 200 then
               (case json_value response of
                  Inl e \<Rightarrow> ([Sent rq], Some e)
                | Inr existing_labels \<Rightarrow>
                    (case py_iter existing_labels of
                       Inl e \<Rightarrow> ([Sent rq], Some e)
                     | Inr labels \<Rightarrow>
                         let (evs, r) =
                               delete_loop api_url repo_owner repo_name hdrs net (Suc k) labels
                         in (Sent rq # evs, r)))
             else ([Sent rq], None))"

text \<open>\<open>create_labels\<close> (lines 104 to 114): the request goes out first, the label's
  name is read only when the status line is printed.\<close>

fun create_labels ::
  "string \<Rightarrow> string \<Rightarrow> string \<Rightarrow> (string \<times> string) list \<Rightarrow> pyval list \<Rightarrow> transport \<Rightarrow> nat \<Rightarrow> run"
where
  "create_labels api_url repo_owner repo_name hdrs [] net k = ([], None)"
| "create_labels api_url repo_owner repo_name hdrs (label # rest) net k =
     (let rq = \<lparr>verb = POST, url = labels_url api_url repo_owner repo_name,
                headers = hdrs, json = Some label\<rparr>
      in case net k of
           Inl e \<Rightarrow> ([Sent rq], Some e)
         | Inr response \<Rightarrow>
             (case py_getitem label ''name'' of
                Inl e \<Rightarrow> ([Sent rq], Some e)
              | Inr name \<Rightarrow>
                  let line =
                        (if status_code response = 201
                         then ''Successfully created label: '' @ py_format name
                         else ''Failed to create label: '' @ py_format name @ '' - ''
                              @ bytes_repr (content response));
                      (evs, r) = create_labels api_url repo_owner repo_name hdrs rest net (Suc k)
                  in (Sent rq # Printed line # evs, r)))"

definition mk_label :: "string \<Rightarrow> string \<Rightarrow> string \<Rightarrow> pyval" where
  "mk_label n c d = PDict [(''name'', PStr n), (''color'', PStr c), (''description'', PStr d)]"

definition labels_to_create :: "pyval list" where
  "labels_to_create =
   [mk_label ''bug'' ''d73a4a''
      ''Indicates a problem that impairs or prevents the functions of the product'',
    mk_label ''dependencies'' ''0366d6''
      ''Concerns outdated, broken, or problematic dependencies'',
    mk_label ''documentation'' ''0075ca''
      ''Relates to improvements or additions to documentation'',
    mk_label ''duplicate'' ''cfd3d7''
      ''Signals an issue that has already been reported, often with a reference to the original'',
    mk_label ''enhancement'' ''a2eeef''
      ''Suggests a new feature or improvement to existing functionality'',
    mk_label ''environment'' ''f9d0c4''
      (''Involves issues related to the project'' @ [CHR 0x27]
         @ ''s development, testing, or production environment''),
    mk_label ''good first issue'' ''7057ff''
      ''Suitable for first-time contributors, these issues are a great way to get involved'',
    mk_label ''help wanted'' ''008672''
      ''Requests assistance from the community or team members for an issue or initiative'',
    mk_label ''invalid'' ''e4e669''
      ''Marks an issue that is no longer relevant or that has been filed incorrectly'',
    mk_label ''performance'' ''fbca04''
      ''Highlights areas of the codebase that could be optimized for speed and efficiency'',
    mk_label ''question'' ''d876e3''
      ''Seeks further information or clarification on a topic or issue'',
    mk_label ''refactor'' ''1d76db''
      ''Suggests improvements for code organization or architecture without altering behavior'',
    mk_label ''security'' ''b60205''
      ''Concerns or reports related to security vulnerabilities'',
    mk_label ''test-case'' ''5319e7''
      ''Indicates missing tests or proposes new ones for better coverage'',
    mk_label ''user-story'' ''c2e0c6''
      (''Describes a software feature from an end-user perspective, ''
         @ ''focusing on their needs and experiences''),
    mk_label ''violation'' ''e11d21''
      ''Pertains to vulnerabilities that could impact the security of the project'',
    mk_label ''wontfix'' ''000000''
      ''Acknowledges an issue that the project has decided not to address at the present time'']"

text \<open>Lines 126 and 134 to 137: the base URL and the two request headers.\<close>

definition api_url :: string where
  "api_url = ''https://api.github.com''"

definition script_headers :: "string \<Rightarrow> (string \<times> string) list" where
  "script_headers token =
     [(''Authorization'', ''token '' @ token),
      (''Accept'', ''application/vnd.github.v3+json'')]"

text \<open>
  The script from line 126 on, after the three prompts have been answered with
  \<open>repo_owner\<close>, \<open>repo_name\<close> and \<open>token\<close>: the two calls of lines 229 and 232. An
  exception in the first ends the run before the second.
\<close>

definition script :: "string \<Rightarrow> string \<Rightarrow> string \<Rightarrow> transport \<Rightarrow> run" where
  "script repo_owner repo_name token net =
     (let (evs1, r1) =
            delete_existing_labels api_url repo_owner repo_name (script_headers token) net 0
      in case r1 of
           Some e \<Rightarrow> (evs1, Some e)
         | None \<Rightarrow>
             let (evs2, r2) =
                   create_labels api_url repo_owner repo_name (script_headers token)
                     labels_to_create net (calls evs1)
             in (evs1 @ evs2, r2))"

section \<open>Observations on a run\<close>

text \<open>The HTTP calls of a run, and the lines it printed, each in order.\<close>

fun requests_of :: "event list \<Rightarrow> request list" where
  "requests_of [] = []"
| "requests_of (Sent rq # evs) = rq # requests_of evs"
| "requests_of (Printed s # evs) = requests_of evs"

fun printed :: "event list \<Rightarrow> string list" where
  "printed [] = []"
| "printed (Sent rq # evs) = printed evs"
| "printed (Printed s # evs) = s # printed evs"

definition deletes :: "event list \<Rightarrow> request list" where
  "deletes evs = filter (\<lambda>rq. verb rq = DELETE) (requests_of evs)"

definition is_post :: "request \<Rightarrow> bool" where
  "is_post rq = (verb rq = POST)"

definition not_post :: "request \<Rightarrow> bool" where
  "not_post rq = (verb rq \<noteq> POST)"

text \<open>The transport that answers every call with the same response.\<close>

definition always :: "response \<Rightarrow> transport" where
  "always r k = Inr r"

text \<open>Call \<open>k\<close> returns a response; the \<open>m\<close> calls from \<open>k\<close> on all do.\<close>

definition returns :: "transport \<Rightarrow> nat \<Rightarrow> bool" where
  "returns net k = (case net k of Inr r \<Rightarrow> True | Inl e \<Rightarrow> False)"

definition all_return :: "transport \<Rightarrow> nat \<Rightarrow> nat \<Rightarrow> bool" where
  "all_return net k m = list_all (returns net) [k..<k + m]"

text \<open>What \<open>label['name']\<close> prints as, for a label that has a name.\<close>

definition has_name :: "pyval \<Rightarrow> bool" where
  "has_name l = (case py_getitem l ''name'' of Inr v \<Rightarrow> True | Inl e \<Rightarrow> False)"

definition label_name :: "pyval \<Rightarrow> string" where
  "label_name l = (case py_getitem l ''name'' of Inr v \<Rightarrow> py_format v | Inl e \<Rightarrow> [])"

definition dict_keys :: "pyval \<Rightarrow> string list" where
  "dict_keys v = (case v of PDict kvs \<Rightarrow> map fst kvs | _ \<Rightarrow> [])"

definition is_hex :: "char \<Rightarrow> bool" where
  "is_hex c = (c \<in> set ''0123456789abcdefABCDEF'')"

text \<open>A label of the data model: a dict of exactly the three fields, in this order, all
  strings, the colour six hexadecimal digits.\<close>

fun is_label :: "pyval \<Rightarrow> bool" where
  "is_label (PDict [(k1, PStr n), (k2, PStr c), (k3, PStr d)]) =
     (k1 = ''name'' \<and> k2 = ''color'' \<and> k3 = ''description''
      \<and> length c = 6 \<and> list_all is_hex c)"
| "is_label v = False"

definition has_label_fields :: "pyval \<Rightarrow> bool" where
  "has_label_fields l = (dict_keys l = [''name'', ''color'', ''description''])"

text \<open>The requests the two phases are expected to make for one label.\<close>

definition post_request ::
  "string \<Rightarrow> string \<Rightarrow> string \<Rightarrow> (string \<times> string) list \<Rightarrow> pyval \<Rightarrow> request" where
  "post_request a ow n hdrs label =
     \<lparr>verb = POST, url = labels_url a ow n, headers = hdrs, json = Some label\<rparr>"

definition delete_request ::
  "string \<Rightarrow> string \<Rightarrow> string \<Rightarrow> (string \<times> string) list \<Rightarrow> pyval \<Rightarrow> request" where
  "delete_request a ow n hdrs label =
     \<lparr>verb = DELETE, url = labels_url a ow n @ ''/'' @ label_name label,
      headers = hdrs, json = None\<rparr>"

definition list_request ::
  "string \<Rightarrow> string \<Rightarrow> string \<Rightarrow> (string \<times> string) list \<Rightarrow> request" where
  "list_request a ow n hdrs =
     \<lparr>verb = GET, url = labels_url a ow n, headers = hdrs, json = None\<rparr>"

text \<open>The status lines, by the label's printed name and the response.\<close>

definition delete_line :: "string \<Rightarrow> response \<Rightarrow> string" where
  "delete_line name r =
     (if status_code r = 204 then ''Successfully deleted label: '' @ name
      else ''Failed to delete label: '' @ name @ '' - '' @ bytes_repr (content r))"

definition create_line :: "string \<Rightarrow> response \<Rightarrow> string" where
  "create_line name r =
     (if status_code r = 201 then ''Successfully created label: '' @ name
      else ''Failed to create label: '' @ name @ '' - '' @ bytes_repr (content r))"

text \<open>A run with the request headers blanked: what is left is everything the script
  prints and everything it sends outside the headers.\<close>

fun redact :: "event \<Rightarrow> event" where
  "redact (Sent rq) = Sent (rq\<lparr>headers := []\<rparr>)"
| "redact (Printed s) = Printed s"

text \<open>\<open>t in s\<close> for two strings.\<close>

fun contains :: "string \<Rightarrow> string \<Rightarrow> bool" where
  "contains t [] = (t = [])"
| "contains t (c # cs) = (take (length t) (c # cs) = t \<or> contains t cs)"

section \<open>Sample responses and transports\<close>

definition created :: response where
  "created = \<lparr>status_code = 201, content = ''{}'', json_value = Inr (PDict [])\<rparr>"

definition no_content :: response where
  "no_content = \<lparr>status_code = 204, content = [], json_value = Inl JSONDecodeError\<rparr>"

definition not_found :: response where
  "not_found = \<lparr>status_code = 404, content = ''Not Found'', json_value = Inl JSONDecodeError\<rparr>"

definition partial_content :: response where
  "partial_content =
     \<lparr>status_code = 206, content = ''[bug]'',
      json_value = Inr (PList [PDict [(''name'', PStr ''bug'')]])\<rparr>"

definition unprocessable :: response where
  "unprocessable =
     \<lparr>status_code = 422, content = ''already_exists'', json_value = Inl JSONDecodeError\<rparr>"

definition bad_credentials :: response where
  "bad_credentials =
     \<lparr>status_code = 401, content = ''Bad credentials: ghp_A1'',
      json_value = Inl JSONDecodeError\<rparr>"

definition two_labels :: response where
  "two_labels =
     \<lparr>status_code = 200, content = ''[bug, wontfix]'',
      json_value = Inr (PList [PDict [(''name'', PStr ''bug'')],
                               PDict [(''name'', PStr ''wontfix'')]])\<rparr>"

text \<open>The listing returns two labels, the first delete succeeds, every later call is
  refused.\<close>

definition purge_net :: transport where
  "purge_net k = (if k = 0 then Inr two_labels else if k = 1 then Inr no_content
                  else Inr not_found)"

text \<open>Every create succeeds but the fourth, which is refused as a duplicate.\<close>

definition duplicate_net :: transport where
  "duplicate_net k = (if k = 3 then Inr unprocessable else Inr created)"

section \<open>Facts about the two loops\<close>


lemma calls_simps [simp]:
  "calls [] = 0"
  "calls (Sent rq # evs) = Suc (calls evs)"
  "calls (Printed s # evs) = calls evs"
  by (simp_all add: calls_def)

lemma calls_requests_of: "calls evs = length (requests_of evs)"
  by (induction evs rule: requests_of.induct) simp_all

lemma all_return_0 [simp]: "all_return net k 0"
  by (simp add: all_return_def)

lemma all_return_Suc: "all_return net k (Suc m) \<longleftrightarrow> returns net k \<and> all_return net (Suc k) m"
proof -
  have "[k..<k + Suc m] = k # [Suc k..<Suc k + m]"
    by (simp add: upt_conv_Cons del: upt_Suc)
  then show ?thesis by (simp add: all_return_def)
qed

lemma returnsD: "returns net k \<Longrightarrow> \<exists>r. net k = Inr r"
  by (cases "net k") (simp_all add: returns_def)

lemma has_nameD: "has_name l \<Longrightarrow> \<exists>v. py_getitem l ''name'' = Inr v \<and> label_name l = py_format v"
  by (cases "py_getitem l ''name''") (simp_all add: has_name_def label_name_def)

lemma all_return_nth: "all_return net k m \<Longrightarrow> i < m \<Longrightarrow> returns net (k + i)"
  by (simp add: all_return_def list_all_iff)

lemma create_labels_requests:
  "all_return net k (length ls) \<Longrightarrow> list_all has_name ls \<Longrightarrow>
   requests_of (fst (create_labels a ow n h ls net k)) = map (post_request a ow n h) ls
   \<and> snd (create_labels a ow n h ls net k) = None"
proof (induction ls arbitrary: k)
  case Nil
  then show ?case by simp
next
  case (Cons l ls)
  from Cons.prems(1) obtain r where r: "net k = Inr r"
    by (auto simp: all_return_Suc dest: returnsD)
  from Cons.prems(2) obtain v where v: "py_getitem l ''name'' = Inr v"
    by (auto dest: has_nameD)
  have "all_return net (Suc k) (length ls)"
    using Cons.prems(1) by (simp add: all_return_Suc)
  moreover have "list_all has_name ls" using Cons.prems(2) by simp
  ultimately have IH: "requests_of (fst (create_labels a ow n h ls net (Suc k))) = map (post_request a ow n h) ls
      \<and> snd (create_labels a ow n h ls net (Suc k)) = None"
    by (rule Cons.IH)
  show ?case using r v IH
    by (cases "create_labels a ow n h ls net (Suc k)") (simp add: post_request_def)
qed

lemma create_labels_prefix:
  "requests_of (fst (create_labels a ow n h ls net k)) =
   take (calls (fst (create_labels a ow n h ls net k))) (map (post_request a ow n h) ls)"
proof (induction ls arbitrary: k)
  case Nil
  then show ?case by simp
next
  case (Cons l ls)
  show ?case using Cons.IH [of "Suc k"]
    by (cases "create_labels a ow n h ls net (Suc k)")
       (simp add: post_request_def Let_def split: sum.splits)
qed

lemma create_labels_printed:
  "all_return net k (length ls) \<Longrightarrow> list_all has_name ls \<Longrightarrow>
   length (printed (fst (create_labels a ow n h ls net k))) = length ls \<and>
   (\<forall>i r. i < length ls \<and> net (k + i) = Inr r \<longrightarrow>
      printed (fst (create_labels a ow n h ls net k)) ! i = create_line (label_name (ls ! i)) r)"
proof (induction ls arbitrary: k)
  case Nil
  then show ?case by simp
next
  case (Cons l ls)
  from Cons.prems(1) obtain r0 where r0: "net k = Inr r0"
    by (auto simp: all_return_Suc dest: returnsD)
  from Cons.prems(2) obtain v where v: "py_getitem l ''name'' = Inr v" "label_name l = py_format v"
    by (auto dest: has_nameD)
  have "all_return net (Suc k) (length ls)"
    using Cons.prems(1) by (simp add: all_return_Suc)
  moreover have "list_all has_name ls" using Cons.prems(2) by simp
  ultimately have IH: "length (printed (fst (create_labels a ow n h ls net (Suc k)))) = length ls \<and>
   (\<forall>i r. i < length ls \<and> net (Suc k + i) = Inr r \<longrightarrow>
      printed (fst (create_labels a ow n h ls net (Suc k))) ! i = create_line (label_name (ls ! i)) r)"
    by (rule Cons.IH)
  obtain evs r' where rest: "create_labels a ow n h ls net (Suc k) = (evs, r')"
    by (cases "create_labels a ow n h ls net (Suc k)")
  have run: "printed (fst (create_labels a ow n h (l # ls) net k)) =
      create_line (label_name l) r0 # printed evs"
    using r0 v rest by (simp add: create_line_def)
  show ?case
  proof (intro conjI allI impI)
    show "length (printed (fst (create_labels a ow n h (l # ls) net k))) = length (l # ls)"
      using run IH rest by simp
    fix i r
    assume a: "i < length (l # ls) \<and> net (k + i) = Inr r"
    show "printed (fst (create_labels a ow n h (l # ls) net k)) ! i =
          create_line (label_name ((l # ls) ! i)) r"
    proof (cases i)
      case 0
      with a r0 run show ?thesis by simp
    next
      case (Suc j)
      with a have "j < length ls \<and> net (Suc k + j) = Inr r" by simp
      with IH rest have "printed evs ! j = create_line (label_name (ls ! j)) r" by simp
      with Suc run show ?thesis by simp
    qed
  qed
qed


lemma create_labels_outcome:
  "i < length (fst (create_labels a ow n h ls net k)) \<Longrightarrow>
   fst (create_labels a ow n h ls net k) ! i = Sent rq \<Longrightarrow>
   net (k + calls (take i (fst (create_labels a ow n h ls net k)))) = Inr r \<Longrightarrow>
   json rq = Some l \<Longrightarrow> has_name l \<Longrightarrow>
   Suc i < length (fst (create_labels a ow n h ls net k)) \<and>
   fst (create_labels a ow n h ls net k) ! Suc i = Printed (create_line (label_name l) r)"
proof (induction ls arbitrary: k i)
  case Nil
  then show ?case by simp
next
  case (Cons l0 ls)
  show ?case
  proof (cases "net k")
    case (Inl e)
    with Cons.prems show ?thesis by simp
  next
    case (Inr r0)
    show ?thesis
    proof (cases "py_getitem l0 ''name''")
      case (Inl e)
      with Inr Cons.prems show ?thesis by (auto simp: has_name_def)
    next
      case v0: (Inr v0)
      obtain evs r' where rest: "create_labels a ow n h ls net (Suc k) = (evs, r')"
        by (cases "create_labels a ow n h ls net (Suc k)")
      have run: "fst (create_labels a ow n h (l0 # ls) net k) =
          Sent (post_request a ow n h l0) # Printed (create_line (label_name l0) r0) # evs"
        using Inr v0 rest by (simp add: post_request_def create_line_def label_name_def)
      show ?thesis
      proof (cases i)
        case 0
        with Cons.prems run Inr show ?thesis by (auto simp: post_request_def)
      next
        case (Suc i1)
        show ?thesis
        proof (cases i1)
          case 0
          with Suc Cons.prems run show ?thesis by simp
        next
          case (Suc i2)
          with \<open>i = Suc i1\<close> have i: "i = Suc (Suc i2)" by simp
          have "Suc i2 < length (fst (create_labels a ow n h ls net (Suc k))) \<and>
                fst (create_labels a ow n h ls net (Suc k)) ! Suc i2 =
                Printed (create_line (label_name l) r)"
          proof (rule Cons.IH)
            show "i2 < length (fst (create_labels a ow n h ls net (Suc k)))"
              using Cons.prems(1) run i rest by simp
            show "fst (create_labels a ow n h ls net (Suc k)) ! i2 = Sent rq"
              using Cons.prems(2) run i rest by simp
            show "net (Suc k + calls (take i2 (fst (create_labels a ow n h ls net (Suc k))))) = Inr r"
              using Cons.prems(3) run i rest by simp
          qed (use Cons.prems in auto)
          then show ?thesis using run i rest by simp
        qed
      qed
    qed
  qed
qed

lemma create_labels_bodies:
  "rq \<in> set (requests_of (fst (create_labels a ow n h ls net k))) \<Longrightarrow>
   \<exists>l \<in> set ls. rq = post_request a ow n h l"
  using create_labels_prefix [of a ow n h ls net k] by (auto dest!: in_set_takeD)

lemma create_labels_verbs:
  "list_all is_post (requests_of (fst (create_labels a ow n h ls net k)))"
  by (auto simp: list_all_iff is_post_def post_request_def dest!: create_labels_bodies)


lemma delete_loop_requests:
  "all_return net k (length ls) \<Longrightarrow> list_all has_name ls \<Longrightarrow>
   requests_of (fst (delete_loop a ow n h net k ls)) = map (delete_request a ow n h) ls
   \<and> snd (delete_loop a ow n h net k ls) = None"
proof (induction ls arbitrary: k)
  case Nil
  then show ?case by simp
next
  case (Cons l ls)
  from Cons.prems(1) obtain r where r: "net k = Inr r"
    by (auto simp: all_return_Suc dest: returnsD)
  from Cons.prems(2) obtain v where v: "py_getitem l ''name'' = Inr v" "label_name l = py_format v"
    by (auto dest: has_nameD)
  have "all_return net (Suc k) (length ls)"
    using Cons.prems(1) by (simp add: all_return_Suc)
  moreover have "list_all has_name ls" using Cons.prems(2) by simp
  ultimately have IH: "requests_of (fst (delete_loop a ow n h net (Suc k) ls)) = map (delete_request a ow n h) ls
      \<and> snd (delete_loop a ow n h net (Suc k) ls) = None"
    by (rule Cons.IH)
  show ?case using r v IH
    by (cases "delete_loop a ow n h net (Suc k) ls") (simp add: delete_request_def)
qed

lemma delete_loop_prefix:
  "requests_of (fst (delete_loop a ow n h net k ls)) =
   take (calls (fst (delete_loop a ow n h net k ls))) (map (delete_request a ow n h) ls)"
proof (induction ls arbitrary: k)
  case Nil
  then show ?case by simp
next
  case (Cons l ls)
  show ?case using Cons.IH [of "Suc k"]
    by (cases "delete_loop a ow n h net (Suc k) ls")
       (simp add: delete_request_def label_name_def Let_def split: sum.splits)
qed

lemma delete_loop_verbs:
  "rq \<in> set (requests_of (fst (delete_loop a ow n h net k ls))) \<Longrightarrow> verb rq = DELETE"
  using delete_loop_prefix [of a ow n h net k ls]
  by (auto simp: delete_request_def dest!: in_set_takeD)

lemma delete_loop_outcome:
  "i < length (fst (delete_loop a ow n h net k ls)) \<Longrightarrow>
   fst (delete_loop a ow n h net k ls) ! i = Sent rq \<Longrightarrow>
   net (k + calls (take i (fst (delete_loop a ow n h net k ls)))) = Inr r \<Longrightarrow>
   \<exists>name. url rq = labels_url a ow n @ ''/'' @ name \<and>
     Suc i < length (fst (delete_loop a ow n h net k ls)) \<and>
     fst (delete_loop a ow n h net k ls) ! Suc i = Printed (delete_line name r)"
proof (induction ls arbitrary: k i)
  case Nil
  then show ?case by simp
next
  case (Cons l0 ls)
  show ?case
  proof (cases "py_getitem l0 ''name''")
    case (Inl e)
    with Cons.prems show ?thesis by simp
  next
    case v0: (Inr v0)
    show ?thesis
    proof (cases "net k")
      case (Inl e)
      with v0 Cons.prems show ?thesis by simp
    next
      case (Inr r0)
      obtain evs r' where rest: "delete_loop a ow n h net (Suc k) ls = (evs, r')"
        by (cases "delete_loop a ow n h net (Suc k) ls")
      have run: "fst (delete_loop a ow n h net k (l0 # ls)) =
          Sent (delete_request a ow n h l0) # Printed (delete_line (label_name l0) r0) # evs"
        using Inr v0 rest by (simp add: delete_request_def delete_line_def label_name_def)
      show ?thesis
      proof (cases i)
        case 0
        with Cons.prems run Inr show ?thesis by (auto simp: delete_request_def)
      next
        case (Suc i1)
        show ?thesis
        proof (cases i1)
          case 0
          with Suc Cons.prems run show ?thesis by simp
        next
          case (Suc i2)
          with \<open>i = Suc i1\<close> have i: "i = Suc (Suc i2)" by simp
          have "\<exists>name. url rq = labels_url a ow n @ ''/'' @ name \<and>
                Suc i2 < length (fst (delete_loop a ow n h net (Suc k) ls)) \<and>
                fst (delete_loop a ow n h net (Suc k) ls) ! Suc i2 = Printed (delete_line name r)"
          proof (rule Cons.IH)
            show "i2 < length (fst (delete_loop a ow n h net (Suc k) ls))"
              using Cons.prems(1) run i rest by simp
            show "fst (delete_loop a ow n h net (Suc k) ls) ! i2 = Sent rq"
              using Cons.prems(2) run i rest by simp
            show "net (Suc k + calls (take i2 (fst (delete_loop a ow n h net (Suc k) ls)))) = Inr r"
              using Cons.prems(3) run i rest by simp
          qed
          then show ?thesis using run i rest by simp
        qed
      qed
    qed
  qed
qed

lemma delete_existing_labels_not_200:
  "net k = Inr r \<Longrightarrow> status_code r \<noteq> 200 \<Longrightarrow>
   delete_existing_labels a ow n h net k = ([Sent (list_request a ow n h)], None)"
  by (simp add: delete_existing_labels_def list_request_def)

lemma delete_existing_labels_fault:
  "net k = Inl e \<Longrightarrow>
   delete_existing_labels a ow n h net k = ([Sent (list_request a ow n h)], Some e)"
  by (simp add: delete_existing_labels_def list_request_def)


lemma delete_existing_labels_200:
  "net k = Inr r \<Longrightarrow> status_code r = 200 \<Longrightarrow> json_value r = Inr v \<Longrightarrow> py_iter v = Inr ls \<Longrightarrow>
   delete_existing_labels a ow n h net k =
      (Sent (list_request a ow n h) # fst (delete_loop a ow n h net (Suc k) ls),
       snd (delete_loop a ow n h net (Suc k) ls))"
  by (simp add: delete_existing_labels_def list_request_def split: prod.splits)

lemma delete_existing_labels_cases:
  "fst (delete_existing_labels a ow n h net k) = [Sent (list_request a ow n h)] \<or>
   (\<exists>ls. delete_existing_labels a ow n h net k =
      (Sent (list_request a ow n h) # fst (delete_loop a ow n h net (Suc k) ls),
       snd (delete_loop a ow n h net (Suc k) ls)))"
proof (cases "net k")
  case (Inl e)
  then show ?thesis by (simp add: delete_existing_labels_fault)
next
  case (Inr r)
  show ?thesis
  proof (cases "status_code r = 200")
    case False
    with Inr show ?thesis by (simp add: delete_existing_labels_not_200)
  next
    case True
    show ?thesis
    proof (cases "json_value r")
      case (Inl e)
      with Inr True show ?thesis by (simp add: delete_existing_labels_def list_request_def)
    next
      case v: (Inr v)
      show ?thesis
      proof (cases "py_iter v")
        case (Inl e)
        with Inr True v show ?thesis by (simp add: delete_existing_labels_def list_request_def)
      next
        case ls: (Inr ls)
        with Inr True v show ?thesis
          using delete_existing_labels_200 [of net k r v ls a ow n h] by blast
      qed
    qed
  qed
qed

lemma delete_existing_labels_verbs:
  "list_all not_post (requests_of (fst (delete_existing_labels a ow n h net k)))"
proof -
  have "verb rq \<noteq> POST" if "rq \<in> set (requests_of (fst (delete_loop a ow n h net k' ls)))"
    for rq k' ls
    using delete_loop_verbs [OF that] by simp
  with delete_existing_labels_cases [of a ow n h net k] show ?thesis
    by (auto simp: list_all_iff not_post_def list_request_def)
qed

lemma delete_existing_labels_outcome:
  assumes "i < length (fst (delete_existing_labels a ow n h net k))"
    and "fst (delete_existing_labels a ow n h net k) ! i = Sent rq"
    and "verb rq = DELETE"
    and "net (k + calls (take i (fst (delete_existing_labels a ow n h net k)))) = Inr r"
  shows "\<exists>name. url rq = labels_url a ow n @ ''/'' @ name \<and>
     Suc i < length (fst (delete_existing_labels a ow n h net k)) \<and>
     fst (delete_existing_labels a ow n h net k) ! Suc i = Printed (delete_line name r)"
proof -
  from delete_existing_labels_cases [of a ow n h net k]
  show ?thesis
  proof (elim disjE exE)
    assume "fst (delete_existing_labels a ow n h net k) = [Sent (list_request a ow n h)]"
    with assms show ?thesis by (auto simp: list_request_def)
  next
    fix ls
    assume run: "delete_existing_labels a ow n h net k =
      (Sent (list_request a ow n h) # fst (delete_loop a ow n h net (Suc k) ls),
       snd (delete_loop a ow n h net (Suc k) ls))"
    show ?thesis
    proof (cases i)
      case 0
      with assms run show ?thesis by (auto simp: list_request_def)
    next
      case (Suc j)
      have "\<exists>name. url rq = labels_url a ow n @ ''/'' @ name \<and>
                Suc j < length (fst (delete_loop a ow n h net (Suc k) ls)) \<and>
                fst (delete_loop a ow n h net (Suc k) ls) ! Suc j = Printed (delete_line name r)"
      proof (rule delete_loop_outcome)
        show "j < length (fst (delete_loop a ow n h net (Suc k) ls))"
          using assms(1) run Suc by simp
        show "fst (delete_loop a ow n h net (Suc k) ls) ! j = Sent rq"
          using assms(2) run Suc by simp
        show "net (Suc k + calls (take j (fst (delete_loop a ow n h net (Suc k) ls)))) = Inr r"
          using assms(4) run Suc by simp
      qed
      then show ?thesis using run Suc by simp
    qed
  qed
qed


lemma printed_redact: "printed (map redact evs) = printed evs"
  by (induction evs rule: printed.induct) simp_all

lemma calls_redact: "calls (map redact evs) = calls evs"
  by (induction evs rule: printed.induct) simp_all

lemma delete_loop_redact:
  "map redact (fst (delete_loop a ow n h1 net k ls)) = map redact (fst (delete_loop a ow n h2 net k ls))
   \<and> snd (delete_loop a ow n h1 net k ls) = snd (delete_loop a ow n h2 net k ls)"
proof (induction ls arbitrary: k)
  case Nil
  then show ?case by simp
next
  case (Cons l ls)
  show ?case using Cons.IH [of "Suc k"]
    by (cases "delete_loop a ow n h1 net (Suc k) ls"; cases "delete_loop a ow n h2 net (Suc k) ls")
       (simp add: Let_def split: sum.splits)
qed

lemma create_labels_redact:
  "map redact (fst (create_labels a ow n h1 ls net k)) = map redact (fst (create_labels a ow n h2 ls net k))
   \<and> snd (create_labels a ow n h1 ls net k) = snd (create_labels a ow n h2 ls net k)"
proof (induction ls arbitrary: k)
  case Nil
  then show ?case by simp
next
  case (Cons l ls)
  show ?case using Cons.IH [of "Suc k"]
    by (cases "create_labels a ow n h1 ls net (Suc k)"; cases "create_labels a ow n h2 ls net (Suc k)")
       (simp add: Let_def split: sum.splits)
qed

lemma delete_existing_labels_redact:
  "map redact (fst (delete_existing_labels a ow n h1 net k)) =
   map redact (fst (delete_existing_labels a ow n h2 net k))
   \<and> snd (delete_existing_labels a ow n h1 net k) = snd (delete_existing_labels a ow n h2 net k)"
proof (cases "net k")
  case (Inl e)
  then show ?thesis by (simp add: delete_existing_labels_fault list_request_def)
next
  case (Inr r)
  show ?thesis
  proof (cases "status_code r = 200")
    case False
    with Inr show ?thesis by (simp add: delete_existing_labels_not_200 list_request_def)
  next
    case True
    show ?thesis
    proof (cases "json_value r")
      case (Inl e)
      with Inr True show ?thesis by (simp add: delete_existing_labels_def)
    next
      case v: (Inr v)
      show ?thesis
      proof (cases "py_iter v")
        case (Inl e)
        with Inr True v show ?thesis by (simp add: delete_existing_labels_def)
      next
        case ls: (Inr ls)
        with Inr True v show ?thesis
          using delete_loop_redact [of a ow n h1 net "Suc k" ls h2]
          by (simp add: delete_existing_labels_200 list_request_def)
      qed
    qed
  qed
qed

lemma script_unfold:
  "script ow n t net =
     (case snd (delete_existing_labels api_url ow n (script_headers t) net 0) of
        Some e \<Rightarrow> (fst (delete_existing_labels api_url ow n (script_headers t) net 0), Some e)
      | None \<Rightarrow>
          (fst (delete_existing_labels api_url ow n (script_headers t) net 0) @
           fst (create_labels api_url ow n (script_headers t) labels_to_create net
                  (calls (fst (delete_existing_labels api_url ow n (script_headers t) net 0)))),
           snd (create_labels api_url ow n (script_headers t) labels_to_create net
                  (calls (fst (delete_existing_labels api_url ow n (script_headers t) net 0))))))"
  by (simp add: script_def split: prod.splits option.splits)

lemma script_redact:
  "map redact (fst (script ow n t1 net)) = map redact (fst (script ow n t2 net))
   \<and> snd (script ow n t1 net) = snd (script ow n t2 net)"
proof -
  let ?d1 = "delete_existing_labels api_url ow n (script_headers t1) net 0"
  let ?d2 = "delete_existing_labels api_url ow n (script_headers t2) net 0"
  have d: "map redact (fst ?d1) = map redact (fst ?d2)" "snd ?d1 = snd ?d2"
    using delete_existing_labels_redact [of api_url ow n "script_headers t1" net 0 "script_headers t2"]
    by simp_all
  from d(1) have "calls (map redact (fst ?d1)) = calls (map redact (fst ?d2))" by simp
  then have c: "calls (fst ?d1) = calls (fst ?d2)" by (simp only: calls_redact)
  show ?thesis
    using d c create_labels_redact [of api_url ow n "script_headers t1" labels_to_create net
        "calls (fst ?d2)" "script_headers t2"]
    by (simp add: script_unfold split: option.splits)
qed

lemma script_purge_prefix:
  "take (length (fst (delete_existing_labels api_url ow n (script_headers t) net 0)))
     (fst (script ow n t net)) = fst (delete_existing_labels api_url ow n (script_headers t) net 0)"
  by (simp add: script_unfold split: option.splits)

lemma script_seed_suffix:
  "list_all is_post (requests_of
     (drop (length (fst (delete_existing_labels api_url ow n (script_headers t) net 0)))
        (fst (script ow n t net))))"
  by (simp add: script_unfold create_labels_verbs split: option.splits)

lemma script_not_200:
  "net 0 = Inr r \<Longrightarrow> status_code r \<noteq> 200 \<Longrightarrow>
   script ow n t net =
     (Sent (list_request api_url ow n (script_headers t)) #
        fst (create_labels api_url ow n (script_headers t) labels_to_create net 1),
      snd (create_labels api_url ow n (script_headers t) labels_to_create net 1))"
  by (simp add: script_unfold delete_existing_labels_not_200)

lemma create_labels_first:
  "requests_of (fst (create_labels a ow n h (l # ls) net k)) ! 0 = post_request a ow n h l"
  by (cases "create_labels a ow n h ls net (Suc k)")
     (simp add: post_request_def Let_def split: sum.splits)

lemma sent_in_requests: "Sent rq \<in> set evs \<Longrightarrow> rq \<in> set (requests_of evs)"
  by (induction evs rule: requests_of.induct) auto

lemma catalog_named: "list_all has_name labels_to_create"
  by (simp add: labels_to_create_def mk_label_def has_name_def)

lemma catalog_length: "length labels_to_create = 17"
  by (simp add: labels_to_create_def)

lemma purge_net_run:
  "fst (delete_existing_labels api_url ''octocat'' ''demo'' [] purge_net 0) =
     [Sent (list_request api_url ''octocat'' ''demo'' []),
      Sent \<lparr>verb = DELETE, url = labels_url api_url ''octocat'' ''demo'' @ ''/bug'',
       headers = [], json = None\<rparr>,
      Printed ''Successfully deleted label: bug'',
      Sent \<lparr>verb = DELETE, url = labels_url api_url ''octocat'' ''demo'' @ ''/wontfix'',
       headers = [], json = None\<rparr>,
      Printed (''Failed to delete label: wontfix - b'' @ [CHR 0x27] @ ''Not Found'' @ [CHR 0x27])]"
  by (simp add: delete_existing_labels_def purge_net_def two_labels_def no_content_def
      not_found_def list_request_def bytes_repr_def repr_quote_def esc_byte_def Let_def)

lemma duplicate_net_calls:
  "all_return duplicate_net 0 (length labels_to_create)"
  by (simp add: catalog_length all_return_def duplicate_net_def returns_def list_all_iff)

lemma requests_of_append: "requests_of (xs @ ys) = requests_of xs @ requests_of ys"
  by (induction xs rule: requests_of.induct) simp_all

lemma create_labels_starts:
  "requests_of (fst (create_labels a ow n h (l # ls) net k)) \<noteq> [] \<and>
   hd (requests_of (fst (create_labels a ow n h (l # ls) net k))) = post_request a ow n h l"
  by (cases "create_labels a ow n h ls net (Suc k)")
     (simp add: post_request_def Let_def split: sum.splits)

lemma script_purge_ok:
  "snd (delete_existing_labels api_url ow n (script_headers t) net 0) = None \<Longrightarrow>
   script ow n t net =
     (fst (delete_existing_labels api_url ow n (script_headers t) net 0) @
      fst (create_labels api_url ow n (script_headers t) labels_to_create net
             (calls (fst (delete_existing_labels api_url ow n (script_headers t) net 0)))),
      snd (create_labels api_url ow n (script_headers t) labels_to_create net
             (calls (fst (delete_existing_labels api_url ow n (script_headers t) net 0)))))"
  by (simp add: script_unfold)

lemma script_purge_raised:
  "snd (delete_existing_labels api_url ow n (script_headers t) net 0) = Some e \<Longrightarrow>
   script ow n t net = (fst (delete_existing_labels api_url ow n (script_headers t) net 0), Some e)"
  by (simp add: script_unfold)

lemma purge_200_ok:
  assumes "net k = Inr r" and "status_code r = 200"
    and "json_value r = Inr (PList labels)"
    and "list_all has_name labels"
    and "all_return net (Suc k) (length labels)"
  shows "snd (delete_existing_labels a ow n h net k) = None \<and>
     requests_of (fst (delete_existing_labels a ow n h net k)) =
       list_request a ow n h # map (delete_request a ow n h) labels"
proof -
  have run: "delete_existing_labels a ow n h net k =
      (Sent (list_request a ow n h) # fst (delete_loop a ow n h net (Suc k) labels),
       snd (delete_loop a ow n h net (Suc k) labels))"
    using assms(1-3) by (simp add: delete_existing_labels_200)
  show ?thesis
    using delete_loop_requests [OF assms(5) assms(4), of a ow n h] by (simp add: run)
qed

lemma script_phases:
  "take (length (fst (delete_existing_labels api_url ow n (script_headers t) net 0)))
     (fst (script ow n t net)) = fst (delete_existing_labels api_url ow n (script_headers t) net 0)
   \<and> list_all not_post
        (requests_of (fst (delete_existing_labels api_url ow n (script_headers t) net 0)))
   \<and> list_all is_post (requests_of
        (drop (length (fst (delete_existing_labels api_url ow n (script_headers t) net 0)))
           (fst (script ow n t net))))"
  using script_purge_prefix [of ow n t net] delete_existing_labels_verbs script_seed_suffix [of ow n t net]
  by blast

lemma script_listing_refused:
  assumes "net 0 = Inr r \<and> status_code r \<noteq> 200"
  shows "script ow n t net =
            (Sent (list_request api_url ow n (script_headers t)) #
               fst (create_labels api_url ow n (script_headers t) labels_to_create net 1),
             snd (create_labels api_url ow n (script_headers t) labels_to_create net 1))
          \<and> deletes (fst (script ow n t net)) = []
          \<and> requests_of (fst (script ow n t net)) ! 1 =
              post_request api_url ow n (script_headers t) (hd labels_to_create)"
proof (intro conjI)
  from assms have run: "script ow n t net =
            (Sent (list_request api_url ow n (script_headers t)) #
               fst (create_labels api_url ow n (script_headers t) labels_to_create net 1),
             snd (create_labels api_url ow n (script_headers t) labels_to_create net 1))"
    by (simp add: script_not_200)
  then show "script ow n t net =
            (Sent (list_request api_url ow n (script_headers t)) #
               fst (create_labels api_url ow n (script_headers t) labels_to_create net 1),
             snd (create_labels api_url ow n (script_headers t) labels_to_create net 1))" .
  have posts: "list_all is_post
      (requests_of (fst (create_labels api_url ow n (script_headers t) labels_to_create net 1)))"
    by (rule create_labels_verbs)
  show "deletes (fst (script ow n t net)) = []"
    using posts by (auto simp: run deletes_def list_request_def list_all_iff is_post_def filter_empty_conv)
  obtain l ls where c: "labels_to_create = l # ls"
    using catalog_length by (cases labels_to_create) simp_all
  show "requests_of (fst (script ow n t net)) ! 1 =
              post_request api_url ow n (script_headers t) (hd labels_to_create)"
    using create_labels_first [of api_url ow n "script_headers t" l ls net 1]
    by (simp add: run c)
qed

lemma seed_starts:
  "requests_of (fst (create_labels a ow n h labels_to_create net k)) \<noteq> [] \<and>
   hd (requests_of (fst (create_labels a ow n h labels_to_create net k))) =
     post_request a ow n h (hd labels_to_create)"
proof -
  obtain l ls where c: "labels_to_create = l # ls"
    using catalog_length by (cases labels_to_create) simp_all
  show ?thesis using create_labels_starts [of a ow n h l ls net k] by (simp add: c)
qed

section \<open>The printed form of a response body determines the body\<close>

lemma of_char_bound: "(of_char c :: nat) < 256"
proof -
  have "(of_char c :: nat) mod 256 < 256" by (rule mod_less_divisor) simp
  then show ?thesis by simp
qed

lemma hexdigit_inj: "a < 16 \<Longrightarrow> b < 16 \<Longrightarrow> hexdigit a = hexdigit b \<Longrightarrow> a = b"
proof -
  assume a: "a < 16" and b: "b < 16" and e: "hexdigit a = hexdigit b"
  have d: "distinct ''0123456789abcdef''" by simp
  have l: "length ''0123456789abcdef'' = 16" by simp
  from e show "a = b" unfolding hexdigit_def
    using nth_eq_iff_index_eq [OF d, of a b] a b l by simp
qed

lemma hex2_append: "hex2 c @ xs = hex2 d @ ys \<longleftrightarrow> c = d \<and> xs = ys"
proof
  assume e: "hex2 c @ xs = hex2 d @ ys"
  have c: "(of_char c :: nat) div 16 < 16"
    using of_char_bound [of c] by arith
  have d: "(of_char d :: nat) div 16 < 16"
    using of_char_bound [of d] by arith
  from e have h: "hexdigit (of_char c div 16) = hexdigit (of_char d div 16)"
    "hexdigit (of_char c mod 16) = hexdigit (of_char d mod 16)" and x: "xs = ys"
    by (simp_all add: hex2_def)
  have "(of_char c :: nat) div 16 = of_char d div 16"
    using c d h(1) by (rule hexdigit_inj)
  moreover have "(of_char c :: nat) mod 16 = of_char d mod 16"
    by (rule hexdigit_inj [OF _ _ h(2)]) simp_all
  ultimately have "(of_char c :: nat) = of_char d"
    by (metis div_mult_mod_eq)
  then have "c = d" by simp
  with x show "c = d \<and> xs = ys" by simp
qed simp

lemma esc_byte_nonempty: "esc_byte q c \<noteq> []"
  by (simp add: esc_byte_def)

lemma esc_byte_append:
  assumes "q = CHR 0x27 \<or> q = CHR 0x22"
  shows "esc_byte q c @ xs = esc_byte q d @ ys \<longleftrightarrow> c = d \<and> xs = ys"
  using assms by (auto simp: esc_byte_def hex2_append split: if_splits)

lemma concat_esc_inj:
  assumes "q = CHR 0x27 \<or> q = CHR 0x22"
  shows "concat (map (esc_byte q) b1) = concat (map (esc_byte q) b2) \<Longrightarrow> b1 = b2"
proof (induction b1 arbitrary: b2)
  case Nil
  then show ?case by (cases b2) (simp_all add: esc_byte_nonempty)
next
  case (Cons c b1)
  show ?case
  proof (cases b2)
    case Nil
    with Cons.prems show ?thesis by (simp add: esc_byte_nonempty)
  next
    case (Cons d b2')
    with Cons.prems have "esc_byte q c @ concat (map (esc_byte q) b1) =
        esc_byte q d @ concat (map (esc_byte q) b2')" by simp
    then have "c = d \<and> concat (map (esc_byte q) b1) = concat (map (esc_byte q) b2')"
      by (simp only: esc_byte_append [OF assms])
    with Cons.IH Cons show ?thesis by simp
  qed
qed

lemma repr_quote_cases: "repr_quote s = CHR 0x27 \<or> repr_quote s = CHR 0x22"
  by (simp add: repr_quote_def)

lemma bytes_repr_inj: "bytes_repr b1 = bytes_repr b2 \<Longrightarrow> b1 = b2"
proof -
  assume e: "bytes_repr b1 = bytes_repr b2"
  then have q: "repr_quote b1 = repr_quote b2"
    by (simp add: bytes_repr_def Let_def)
  with e have "concat (map (esc_byte (repr_quote b1)) b1) =
      concat (map (esc_byte (repr_quote b1)) b2)"
    by (simp add: bytes_repr_def Let_def)
  then show "b1 = b2"
    by (rule concat_esc_inj [OF repr_quote_cases])
qed

section \<open>The claims\<close>

text \<open>
  C1 (amended). The catalog has 17 entries, not 16, each a dict of exactly the fields
  name, color and description. The requests made by \<open>create_labels\<close> on the catalog are
  always an initial segment of the catalog's create requests, in catalog order, each with
  the label itself as JSON body; when every one of the 17 calls returns a response, they
  are exactly the 17 requests, one per entry.
\<close>

theorem seed_requests_in_catalog_order:
  "length labels_to_create = 17 \<and>
   list_all has_label_fields labels_to_create \<and>
   requests_of (fst (create_labels a ow n h labels_to_create net k)) =
     take (calls (fst (create_labels a ow n h labels_to_create net k)))
       (map (post_request a ow n h) labels_to_create) \<and>
   (all_return net k (length labels_to_create) \<longrightarrow>
      requests_of (fst (create_labels a ow n h labels_to_create net k)) =
        map (post_request a ow n h) labels_to_create)"
proof (intro conjI impI)
  show "length labels_to_create = 17" by (rule catalog_length)
  show "list_all has_label_fields labels_to_create"
    by (simp add: labels_to_create_def mk_label_def has_label_fields_def dict_keys_def)
  show "requests_of (fst (create_labels a ow n h labels_to_create net k)) =
     take (calls (fst (create_labels a ow n h labels_to_create net k)))
       (map (post_request a ow n h) labels_to_create)"
    by (rule create_labels_prefix)
  assume "all_return net k (length labels_to_create)"
  then show "requests_of (fst (create_labels a ow n h labels_to_create net k)) =
        map (post_request a ow n h) labels_to_create"
    using create_labels_requests catalog_named by blast
qed

text \<open>An instance: every call answered with 201.\<close>

theorem seed_requests_in_catalog_order_witness:
  "requests_of (fst (create_labels api_url ''octocat'' ''demo'' [] labels_to_create (always created) 0)) =
     map (post_request api_url ''octocat'' ''demo'' []) labels_to_create"
proof -
  have "all_return (always created) 0 (length labels_to_create)"
    by (simp add: all_return_def always_def returns_def list_all_iff)
  with seed_requests_in_catalog_order [of api_url "''octocat''" "''demo''" "[]" "always created" 0]
  show ?thesis by blast
qed

text \<open>C1 as stated fails: with every call answered 201 the seed phase makes 17 create
  requests, not 16.\<close>

theorem seed_requests_counterexample:
  "length (requests_of (fst (create_labels api_url ''octocat'' ''demo'' (script_headers ''ghp_A1'')
       labels_to_create (always created) 0))) \<noteq> 16"
  using create_labels_requests [of "always created" 0 labels_to_create api_url "''octocat''" "''demo''"
      "script_headers ''ghp_A1''"] catalog_named
  by (simp add: all_return_def always_def returns_def catalog_length list_all_iff)

text \<open>
  C2. If the listing call does not return a response with status 200 (it raises, or it
  returns any other status, so in particular any status that is not a success), the
  purge phase makes no delete request.
\<close>

theorem listing_failure_no_deletes:
  assumes "\<forall>r. net k = Inr r \<longrightarrow> status_code r \<noteq> 200"
  shows "deletes (fst (delete_existing_labels a ow n h net k)) = []"
proof (cases "net k")
  case (Inl e)
  then show ?thesis
    by (simp add: delete_existing_labels_fault deletes_def list_request_def)
next
  case (Inr r)
  with assms have "status_code r \<noteq> 200" by simp
  with Inr show ?thesis
    by (simp add: delete_existing_labels_not_200 deletes_def list_request_def)
qed

text \<open>An instance: the listing call answered with 404.\<close>

theorem listing_failure_no_deletes_witness:
  "deletes (fst (delete_existing_labels api_url ''octocat'' ''demo'' [] (always not_found) 0)) = []"
proof -
  have "\<forall>r. always not_found 0 = Inr r \<longrightarrow> status_code r \<noteq> 200"
    by (simp add: always_def not_found_def)
  then show ?thesis by (rule listing_failure_no_deletes)
qed

text \<open>
  C3. In every run of the script the events of the purge phase come first and in full:
  the run starts with the whole trace of \<open>delete_existing_labels\<close>, which holds no
  create request, and every request after it is a create request. The seed phase follows
  whenever the purge phase returns, whatever the listing call answered: the run is then
  the purge trace followed by the trace of \<open>create_labels\<close> on the catalog, which always
  starts with the create request of the first catalog entry and, when its calls return,
  holds the create requests of all entries. Only an exception raised inside the purge
  phase ends the run without the seed phase. When the listing call returns a status other
  than 200 (404, say) the purge phase is the listing request alone and returns, no delete
  request is made, and the second request of the run is the create request of the first
  catalog entry. When it returns 200 with a list of named labels and the delete calls
  return, the requests of the run are the listing request, the delete requests and then
  those of the seed phase.
\<close>

theorem purge_then_seed:
  assumes "purge = delete_existing_labels api_url ow n (script_headers t) net 0"
    and "seed = create_labels api_url ow n (script_headers t) labels_to_create net
                  (calls (fst purge))"
  shows "take (length (fst purge)) (fst (script ow n t net)) = fst purge
    \<and> list_all not_post (requests_of (fst purge))
    \<and> list_all is_post (requests_of (drop (length (fst purge)) (fst (script ow n t net))))
    \<and> (\<forall>r. net 0 = Inr r \<and> status_code r \<noteq> 200 \<longrightarrow>
          script ow n t net =
            (Sent (list_request api_url ow n (script_headers t)) #
               fst (create_labels api_url ow n (script_headers t) labels_to_create net 1),
             snd (create_labels api_url ow n (script_headers t) labels_to_create net 1))
          \<and> deletes (fst (script ow n t net)) = []
          \<and> requests_of (fst (script ow n t net)) ! 1 =
              post_request api_url ow n (script_headers t) (hd labels_to_create))
    \<and> (snd purge = None \<longrightarrow> script ow n t net = (fst purge @ fst seed, snd seed))
    \<and> (\<forall>e. snd purge = Some e \<longrightarrow> script ow n t net = (fst purge, Some e))
    \<and> requests_of (fst seed) \<noteq> []
    \<and> hd (requests_of (fst seed)) =
         post_request api_url ow n (script_headers t) (hd labels_to_create)
    \<and> (all_return net (calls (fst purge)) (length labels_to_create) \<longrightarrow>
          requests_of (fst seed) =
            map (post_request api_url ow n (script_headers t)) labels_to_create)
    \<and> (\<forall>r labels. net 0 = Inr r \<and> status_code r = 200
            \<and> json_value r = Inr (PList labels) \<and> list_all has_name labels
            \<and> all_return net 1 (length labels) \<longrightarrow>
          snd purge = None
          \<and> requests_of (fst (script ow n t net)) =
              list_request api_url ow n (script_headers t) #
              map (delete_request api_url ow n (script_headers t)) labels @
              requests_of (fst seed))"
proof -
  note ph = script_phases [of ow n t net, folded assms(1)]
  have refused: "\<forall>r. net 0 = Inr r \<and> status_code r \<noteq> 200 \<longrightarrow>
          script ow n t net =
            (Sent (list_request api_url ow n (script_headers t)) #
               fst (create_labels api_url ow n (script_headers t) labels_to_create net 1),
             snd (create_labels api_url ow n (script_headers t) labels_to_create net 1))
          \<and> deletes (fst (script ow n t net)) = []
          \<and> requests_of (fst (script ow n t net)) ! 1 =
              post_request api_url ow n (script_headers t) (hd labels_to_create)"
    using script_listing_refused by blast
  have ok: "snd purge = None \<longrightarrow> script ow n t net = (fst purge @ fst seed, snd seed)"
    unfolding assms using script_purge_ok by blast
  have raised: "\<forall>e. snd purge = Some e \<longrightarrow> script ow n t net = (fst purge, Some e)"
    unfolding assms using script_purge_raised by blast
  have starts: "requests_of (fst seed) \<noteq> [] \<and> hd (requests_of (fst seed)) =
         post_request api_url ow n (script_headers t) (hd labels_to_create)"
    unfolding assms(2) by (rule seed_starts)
  have all: "all_return net (calls (fst purge)) (length labels_to_create) \<longrightarrow>
          requests_of (fst seed) =
            map (post_request api_url ow n (script_headers t)) labels_to_create"
    unfolding assms(2) using create_labels_requests catalog_named by blast
  have listed: "\<forall>r labels. net 0 = Inr r \<and> status_code r = 200
            \<and> json_value r = Inr (PList labels) \<and> list_all has_name labels
            \<and> all_return net 1 (length labels) \<longrightarrow>
          snd purge = None
          \<and> requests_of (fst (script ow n t net)) =
              list_request api_url ow n (script_headers t) #
              map (delete_request api_url ow n (script_headers t)) labels @
              requests_of (fst seed)"
  proof (intro allI impI)
    fix r labels
    assume a: "net 0 = Inr r \<and> status_code r = 200
            \<and> json_value r = Inr (PList labels) \<and> list_all has_name labels
            \<and> all_return net 1 (length labels)"
    then have "all_return net (Suc 0) (length labels)" by simp
    with a have p: "snd purge = None \<and> requests_of (fst purge) =
        list_request api_url ow n (script_headers t) #
        map (delete_request api_url ow n (script_headers t)) labels"
      unfolding assms(1) by (intro purge_200_ok) blast+
    with ok have "script ow n t net = (fst purge @ fst seed, snd seed)" by simp
    with p show "snd purge = None
          \<and> requests_of (fst (script ow n t net)) =
              list_request api_url ow n (script_headers t) #
              map (delete_request api_url ow n (script_headers t)) labels @
              requests_of (fst seed)"
      by (simp add: requests_of_append)
  qed
  from ph have p1: "take (length (fst purge)) (fst (script ow n t net)) = fst purge"
    and p2: "list_all not_post (requests_of (fst purge))"
    and p3: "list_all is_post
        (requests_of (drop (length (fst purge)) (fst (script ow n t net))))"
    by blast+
  from starts have s1: "requests_of (fst seed) \<noteq> []"
    and s2: "hd (requests_of (fst seed)) =
         post_request api_url ow n (script_headers t) (hd labels_to_create)"
    by blast+
  show ?thesis
    by (intro conjI) (fact p1 p2 p3 refused ok raised s1 s2 all listed)+
qed

text \<open>Two instances: the listing returns the labels bug and wontfix, after which the
  run makes the listing request, two delete requests and the 17 create requests; and every
  call answered with 404.\<close>

theorem purge_then_seed_witness:
  "requests_of (fst (script ''octocat'' ''demo'' ''ghp_A1'' purge_net)) =
     list_request api_url ''octocat'' ''demo'' (script_headers ''ghp_A1'') #
     map (delete_request api_url ''octocat'' ''demo'' (script_headers ''ghp_A1''))
       [PDict [(''name'', PStr ''bug'')], PDict [(''name'', PStr ''wontfix'')]] @
     map (post_request api_url ''octocat'' ''demo'' (script_headers ''ghp_A1'')) labels_to_create
   \<and> deletes (fst (script ''octocat'' ''demo'' ''ghp_A1'' (always not_found))) = []
   \<and> requests_of (fst (script ''octocat'' ''demo'' ''ghp_A1'' (always not_found))) ! 1 =
       post_request api_url ''octocat'' ''demo'' (script_headers ''ghp_A1'') (hd labels_to_create)"
proof -
  let ?labels = "[PDict [(''name'', PStr ''bug'')], PDict [(''name'', PStr ''wontfix'')]]"
  let ?purge = "delete_existing_labels api_url ''octocat'' ''demo'' (script_headers ''ghp_A1'')
      purge_net 0"
  let ?seed = "create_labels api_url ''octocat'' ''demo'' (script_headers ''ghp_A1'')
      labels_to_create purge_net (calls (fst ?purge))"
  note T = purge_then_seed [OF refl refl, of "''octocat''" "''demo''" "''ghp_A1''" purge_net]
  have listing: "purge_net 0 = Inr two_labels \<and> status_code two_labels = 200
      \<and> json_value two_labels = Inr (PList ?labels) \<and> list_all has_name ?labels
      \<and> all_return purge_net 1 (length ?labels)"
    by (simp add: purge_net_def two_labels_def has_name_def all_return_def returns_def)
  with T have run: "requests_of (fst (script ''octocat'' ''demo'' ''ghp_A1'' purge_net)) =
      list_request api_url ''octocat'' ''demo'' (script_headers ''ghp_A1'') #
      map (delete_request api_url ''octocat'' ''demo'' (script_headers ''ghp_A1'')) ?labels @
      requests_of (fst ?seed)"
    by blast
  have "all_return purge_net (calls (fst ?purge)) (length labels_to_create)"
    by (simp add: all_return_def list_all_iff returns_def purge_net_def)
  with T have "requests_of (fst ?seed) =
      map (post_request api_url ''octocat'' ''demo'' (script_headers ''ghp_A1'')) labels_to_create"
    by blast
  with run have first: "requests_of (fst (script ''octocat'' ''demo'' ''ghp_A1'' purge_net)) =
     list_request api_url ''octocat'' ''demo'' (script_headers ''ghp_A1'') #
     map (delete_request api_url ''octocat'' ''demo'' (script_headers ''ghp_A1'')) ?labels @
     map (post_request api_url ''octocat'' ''demo'' (script_headers ''ghp_A1'')) labels_to_create"
    by simp
  have "always not_found 0 = Inr not_found \<and> status_code not_found \<noteq> 200"
    by (simp add: always_def not_found_def)
  then have "deletes (fst (script ''octocat'' ''demo'' ''ghp_A1'' (always not_found))) = []
   \<and> requests_of (fst (script ''octocat'' ''demo'' ''ghp_A1'' (always not_found))) ! 1 =
       post_request api_url ''octocat'' ''demo'' (script_headers ''ghp_A1'') (hd labels_to_create)"
    using purge_then_seed [OF refl refl, of "''octocat''" "''demo''" "''ghp_A1''" "always not_found"]
    by blast
  with first show ?thesis by (simp only: simp_thms)
qed

text \<open>
  C10. When the listing call returns a response whose status is not exactly 200 (206
  included), \<open>delete_existing_labels\<close> makes the listing request and nothing else: no
  delete request, no printed line, and it returns normally.
\<close>

theorem purge_silent_unless_200:
  assumes "net k = Inr r" and "status_code r \<noteq> 200"
  shows "delete_existing_labels a ow n h net k = ([Sent (list_request a ow n h)], None)
    \<and> deletes (fst (delete_existing_labels a ow n h net k)) = []
    \<and> printed (fst (delete_existing_labels a ow n h net k)) = []"
  using assms by (simp add: delete_existing_labels_not_200 deletes_def list_request_def)

text \<open>An instance: the listing answered with 206 and a body that lists one label.\<close>

theorem purge_silent_unless_200_witness:
  "delete_existing_labels api_url ''octocat'' ''demo'' [] (always partial_content) 0 =
     ([Sent (list_request api_url ''octocat'' ''demo'' [])], None)"
proof -
  have "always partial_content 0 = Inr partial_content" by (simp add: always_def)
  moreover have "status_code partial_content \<noteq> 200" by (simp add: partial_content_def)
  ultimately show ?thesis
    using purge_silent_unless_200 [of "always partial_content" 0 partial_content] by blast
qed

text \<open>
  C4. When the listing call returns status 200 with a list of labels, each of which has a
  name, and every delete call returns a response, the purge phase makes the listing
  request and then exactly one delete request per label, in the order of the list; the
  URL of each is the labels endpoint, a slash, and the label's name.
\<close>

theorem purge_deletes_each_label_once:
  assumes "net k = Inr r" and "status_code r = 200"
    and "json_value r = Inr (PList labels)"
    and "list_all has_name labels"
    and "all_return net (Suc k) (length labels)"
  shows "requests_of (fst (delete_existing_labels a ow n h net k)) =
           list_request a ow n h # map (delete_request a ow n h) labels
     \<and> deletes (fst (delete_existing_labels a ow n h net k)) =
           map (delete_request a ow n h) labels
     \<and> list_all (\<lambda>l. url (delete_request a ow n h l) = labels_url a ow n @ ''/'' @ label_name l) labels"
proof -
  have run: "delete_existing_labels a ow n h net k =
      (Sent (list_request a ow n h) # fst (delete_loop a ow n h net (Suc k) labels),
       snd (delete_loop a ow n h net (Suc k) labels))"
    using assms(1-3) by (simp add: delete_existing_labels_200)
  have loop: "requests_of (fst (delete_loop a ow n h net (Suc k) labels)) =
      map (delete_request a ow n h) labels"
    using delete_loop_requests [OF assms(5) assms(4)] by simp
  have "filter (\<lambda>rq. verb rq = DELETE) (map (delete_request a ow n h) labels) =
      map (delete_request a ow n h) labels"
    by (simp add: filter_id_conv delete_request_def)
  then show ?thesis
    by (simp add: run loop deletes_def list_request_def list_all_iff)
       (simp add: delete_request_def)
qed

text \<open>An instance: the listing returns the labels bug and wontfix.\<close>

theorem purge_deletes_each_label_once_witness:
  "requests_of (fst (delete_existing_labels api_url ''octocat'' ''demo'' [] purge_net 0)) =
     [list_request api_url ''octocat'' ''demo'' [],
      \<lparr>verb = DELETE, url = ''https://api.github.com/repos/octocat/demo/labels/bug'',
       headers = [], json = None\<rparr>,
      \<lparr>verb = DELETE, url = ''https://api.github.com/repos/octocat/demo/labels/wontfix'',
       headers = [], json = None\<rparr>]"
proof -
  have "purge_net 0 = Inr two_labels" by (simp add: purge_net_def)
  moreover have "status_code two_labels = 200" by (simp add: two_labels_def)
  moreover have "json_value two_labels =
      Inr (PList [PDict [(''name'', PStr ''bug'')], PDict [(''name'', PStr ''wontfix'')]])"
    by (simp add: two_labels_def)
  moreover have "list_all has_name [PDict [(''name'', PStr ''bug'')], PDict [(''name'', PStr ''wontfix'')]]"
    by (simp add: has_name_def)
  moreover have "all_return purge_net (Suc 0)
      (length [PDict [(''name'', PStr ''bug'')], PDict [(''name'', PStr ''wontfix'')]])"
    by (simp add: all_return_def purge_net_def returns_def)
  ultimately show ?thesis
    using purge_deletes_each_label_once [of purge_net 0 two_labels
      "[PDict [(''name'', PStr ''bug'')], PDict [(''name'', PStr ''wontfix'')]]"
      api_url "''octocat''" "''demo''" "[]"]
    by (simp add: delete_request_def label_name_def labels_url_def api_url_def)
qed

text \<open>
  C5. Every delete request of the purge phase that gets a response is followed at once by
  the status line of its label (the name its URL ends with): the line of success when the
  status is 204, and for any other status the line of failure, which ends with the
  \<open>repr\<close> of the raw response body, a text that no other body has. The response of
  the request at position \<open>i\<close> of the trace is that of call number \<open>k\<close> plus the
  number of requests before \<open>i\<close>.
\<close>

theorem delete_outcome:
  assumes "i < length (fst (delete_existing_labels a ow n h net k))"
    and "fst (delete_existing_labels a ow n h net k) ! i = Sent rq"
    and "verb rq = DELETE"
    and "net (k + calls (take i (fst (delete_existing_labels a ow n h net k)))) = Inr r"
  shows "(\<exists>name. url rq = labels_url a ow n @ ''/'' @ name \<and>
     Suc i < length (fst (delete_existing_labels a ow n h net k)) \<and>
     fst (delete_existing_labels a ow n h net k) ! Suc i =
       Printed (if status_code r = 204 then ''Successfully deleted label: '' @ name
                else ''Failed to delete label: '' @ name @ '' - '' @ bytes_repr (content r)))
   \<and> (\<forall>b. bytes_repr b = bytes_repr (content r) \<longrightarrow> b = content r)"
proof
  show "\<exists>name. url rq = labels_url a ow n @ ''/'' @ name \<and>
     Suc i < length (fst (delete_existing_labels a ow n h net k)) \<and>
     fst (delete_existing_labels a ow n h net k) ! Suc i =
       Printed (if status_code r = 204 then ''Successfully deleted label: '' @ name
                else ''Failed to delete label: '' @ name @ '' - '' @ bytes_repr (content r))"
    using delete_existing_labels_outcome [OF assms] by (simp add: delete_line_def)
  show "\<forall>b. bytes_repr b = bytes_repr (content r) \<longrightarrow> b = content r"
    using bytes_repr_inj by blast
qed

text \<open>An instance: the delete of wontfix is refused with 404.\<close>

theorem delete_outcome_witness:
  "fst (delete_existing_labels api_url ''octocat'' ''demo'' [] purge_net 0) ! 4 =
     Printed (''Failed to delete label: wontfix - b'' @ [CHR 0x27] @ ''Not Found'' @ [CHR 0x27])"
proof -
  let ?evs = "fst (delete_existing_labels api_url ''octocat'' ''demo'' [] purge_net 0)"
  let ?rq = "\<lparr>verb = DELETE, url = labels_url api_url ''octocat'' ''demo'' @ ''/wontfix'',
       headers = [], json = None\<rparr>"
  have "3 < length ?evs" by (simp add: purge_net_run)
  moreover have "?evs ! 3 = Sent ?rq" by (simp add: purge_net_run)
  moreover have "verb ?rq = DELETE" by simp
  moreover have "purge_net (0 + calls (take 3 ?evs)) = Inr not_found"
    by (simp add: purge_net_run purge_net_def)
  ultimately have "(\<exists>name. url ?rq = labels_url api_url ''octocat'' ''demo'' @ ''/'' @ name \<and>
     Suc 3 < length ?evs \<and>
     ?evs ! Suc 3 =
       Printed (if status_code not_found = 204 then ''Successfully deleted label: '' @ name
                else ''Failed to delete label: '' @ name @ '' - '' @ bytes_repr (content not_found)))
     \<and> (\<forall>b. bytes_repr b = bytes_repr (content not_found) \<longrightarrow> b = content not_found)"
    by (rule delete_outcome)
  then have "\<exists>name. url ?rq = labels_url api_url ''octocat'' ''demo'' @ ''/'' @ name \<and>
     Suc 3 < length ?evs \<and>
     ?evs ! Suc 3 =
       Printed (if status_code not_found = 204 then ''Successfully deleted label: '' @ name
                else ''Failed to delete label: '' @ name @ '' - '' @ bytes_repr (content not_found))"
    by (rule conjunct1)
  then show ?thesis
    by (auto simp: not_found_def bytes_repr_def repr_quote_def esc_byte_def Let_def)
qed

text \<open>
  C6. Every create request of \<open>create_labels\<close>, run on labels that have names, that gets
  a response is followed at once by the status line of the label it carries: the line of
  success when the status is 201, and for any other status the line of failure, which ends
  with the \<open>repr\<close> of the raw response body, a text that no other body has.
\<close>

theorem create_outcome:
  assumes "list_all has_name ls"
    and "i < length (fst (create_labels a ow n h ls net k))"
    and "fst (create_labels a ow n h ls net k) ! i = Sent rq"
    and "net (k + calls (take i (fst (create_labels a ow n h ls net k)))) = Inr r"
  shows "(\<exists>l. json rq = Some l \<and> l \<in> set ls \<and>
     Suc i < length (fst (create_labels a ow n h ls net k)) \<and>
     fst (create_labels a ow n h ls net k) ! Suc i =
       Printed (if status_code r = 201 then ''Successfully created label: '' @ label_name l
                else ''Failed to create label: '' @ label_name l @ '' - ''
                     @ bytes_repr (content r)))
   \<and> (\<forall>b. bytes_repr b = bytes_repr (content r) \<longrightarrow> b = content r)"
proof
  from assms(2,3) have "Sent rq \<in> set (fst (create_labels a ow n h ls net k))"
    by (metis nth_mem)
  then have "rq \<in> set (requests_of (fst (create_labels a ow n h ls net k)))"
    by (rule sent_in_requests)
  then obtain l where l: "l \<in> set ls" "rq = post_request a ow n h l"
    by (auto dest: create_labels_bodies)
  then have j: "json rq = Some l" by (simp add: post_request_def)
  from l(1) assms(1) have "has_name l" by (simp add: list_all_iff)
  from create_labels_outcome [OF assms(2) assms(3) assms(4) j this] l(1) j
  show "\<exists>l. json rq = Some l \<and> l \<in> set ls \<and>
     Suc i < length (fst (create_labels a ow n h ls net k)) \<and>
     fst (create_labels a ow n h ls net k) ! Suc i =
       Printed (if status_code r = 201 then ''Successfully created label: '' @ label_name l
                else ''Failed to create label: '' @ label_name l @ '' - ''
                     @ bytes_repr (content r))"
    by (auto simp: create_line_def)
  show "\<forall>b. bytes_repr b = bytes_repr (content r) \<longrightarrow> b = content r"
    using bytes_repr_inj by blast
qed

text \<open>An instance: the fourth create is refused with 422.\<close>

theorem create_outcome_witness:
  "fst (create_labels api_url ''octocat'' ''demo'' [] (take 4 labels_to_create) duplicate_net 0) ! 7 =
     Printed (''Failed to create label: duplicate - b'' @ [CHR 0x27] @ ''already_exists''
              @ [CHR 0x27])"
proof -
  let ?ls = "take 4 labels_to_create"
  let ?evs = "fst (create_labels api_url ''octocat'' ''demo'' [] ?ls duplicate_net 0)"
  have run: "?evs =
    [Sent (post_request api_url ''octocat'' ''demo'' [] (labels_to_create ! 0)),
     Printed ''Successfully created label: bug'',
     Sent (post_request api_url ''octocat'' ''demo'' [] (labels_to_create ! 1)),
     Printed ''Successfully created label: dependencies'',
     Sent (post_request api_url ''octocat'' ''demo'' [] (labels_to_create ! 2)),
     Printed ''Successfully created label: documentation'',
     Sent (post_request api_url ''octocat'' ''demo'' [] (labels_to_create ! 3)),
     Printed (''Failed to create label: duplicate - b'' @ [CHR 0x27] @ ''already_exists''
              @ [CHR 0x27])]"
    by (simp add: labels_to_create_def mk_label_def duplicate_net_def created_def
        unprocessable_def post_request_def bytes_repr_def repr_quote_def esc_byte_def Let_def)
  have "list_all has_name ?ls"
    by (simp add: labels_to_create_def mk_label_def has_name_def)
  moreover have "6 < length ?evs" by (simp add: run)
  moreover have "?evs ! 6 = Sent (post_request api_url ''octocat'' ''demo'' [] (labels_to_create ! 3))"
    by (simp add: run)
  moreover have "duplicate_net (0 + calls (take 6 ?evs)) = Inr unprocessable"
    by (simp add: run duplicate_net_def)
  ultimately have "(\<exists>l. json (post_request api_url ''octocat'' ''demo'' [] (labels_to_create ! 3)) = Some l
     \<and> l \<in> set ?ls \<and> Suc 6 < length ?evs \<and>
     ?evs ! Suc 6 =
       Printed (if status_code unprocessable = 201 then ''Successfully created label: '' @ label_name l
                else ''Failed to create label: '' @ label_name l @ '' - ''
                     @ bytes_repr (content unprocessable)))
     \<and> (\<forall>b. bytes_repr b = bytes_repr (content unprocessable) \<longrightarrow> b = content unprocessable)"
    by (rule create_outcome)
  then have "\<exists>l. json (post_request api_url ''octocat'' ''demo'' [] (labels_to_create ! 3)) = Some l
     \<and> l \<in> set ?ls \<and> Suc 6 < length ?evs \<and>
     ?evs ! Suc 6 =
       Printed (if status_code unprocessable = 201 then ''Successfully created label: '' @ label_name l
                else ''Failed to create label: '' @ label_name l @ '' - ''
                     @ bytes_repr (content unprocessable))"
    by (rule conjunct1)
  then show ?thesis
    by (auto simp: post_request_def unprocessable_def labels_to_create_def mk_label_def
        label_name_def bytes_repr_def repr_quote_def esc_byte_def Let_def)
qed

text \<open>
  C7. When every create call returns a response and the one for catalog entry \<open>j\<close> has a
  status other than 201, all catalog entries are still requested, in order, and the run
  ends normally; the line printed for entry \<open>j\<close> is the line of failure with the
  response body, and the line printed for each entry depends on the response to its own
  request alone.
\<close>

theorem create_calls_independent:
  assumes "all_return net k (length labels_to_create)"
    and "j < length labels_to_create"
    and "net (k + j) = Inr r"
    and "status_code r \<noteq> 201"
  shows "requests_of (fst (create_labels a ow n h labels_to_create net k)) =
           map (post_request a ow n h) labels_to_create
     \<and> snd (create_labels a ow n h labels_to_create net k) = None
     \<and> length (printed (fst (create_labels a ow n h labels_to_create net k))) =
           length labels_to_create
     \<and> printed (fst (create_labels a ow n h labels_to_create net k)) ! j =
           ''Failed to create label: '' @ label_name (labels_to_create ! j) @ '' - ''
             @ bytes_repr (content r)
     \<and> (\<forall>i r'. i < length labels_to_create \<and> net (k + i) = Inr r' \<longrightarrow>
           printed (fst (create_labels a ow n h labels_to_create net k)) ! i =
             (if status_code r' = 201
              then ''Successfully created label: '' @ label_name (labels_to_create ! i)
              else ''Failed to create label: '' @ label_name (labels_to_create ! i) @ '' - ''
                   @ bytes_repr (content r')))"
proof -
  note rq = create_labels_requests [OF assms(1) catalog_named, of a ow n h]
  note pr = create_labels_printed [OF assms(1) catalog_named, of a ow n h]
  from pr assms(2,3) have
    "printed (fst (create_labels a ow n h labels_to_create net k)) ! j =
       create_line (label_name (labels_to_create ! j)) r"
    by blast
  with assms(4) have "printed (fst (create_labels a ow n h labels_to_create net k)) ! j =
           ''Failed to create label: '' @ label_name (labels_to_create ! j) @ '' - ''
             @ bytes_repr (content r)"
    by (simp add: create_line_def)
  moreover have "\<forall>i r'. i < length labels_to_create \<and> net (k + i) = Inr r' \<longrightarrow>
           printed (fst (create_labels a ow n h labels_to_create net k)) ! i =
             (if status_code r' = 201
              then ''Successfully created label: '' @ label_name (labels_to_create ! i)
              else ''Failed to create label: '' @ label_name (labels_to_create ! i) @ '' - ''
                   @ bytes_repr (content r'))"
    using pr unfolding create_line_def by blast
  ultimately show ?thesis using rq pr by blast
qed

text \<open>An instance: the fourth create is refused with 422, all others succeed.\<close>

theorem create_calls_independent_witness:
  "requests_of (fst (create_labels api_url ''octocat'' ''demo'' [] labels_to_create duplicate_net 0)) =
     map (post_request api_url ''octocat'' ''demo'' []) labels_to_create
   \<and> printed (fst (create_labels api_url ''octocat'' ''demo'' [] labels_to_create duplicate_net 0)) ! 3 =
       ''Failed to create label: duplicate - b'' @ [CHR 0x27] @ ''already_exists'' @ [CHR 0x27]
   \<and> printed (fst (create_labels api_url ''octocat'' ''demo'' [] labels_to_create duplicate_net 0)) ! 16 =
       ''Successfully created label: wontfix''"
proof -
  have a: "3 < length labels_to_create" "16 < length labels_to_create"
    by (simp_all add: catalog_length)
  have b: "duplicate_net (0 + 3) = Inr unprocessable" "duplicate_net (0 + 16) = Inr created"
    by (simp_all add: duplicate_net_def)
  have c: "status_code unprocessable \<noteq> 201" by (simp add: unprocessable_def)
  have n3: "label_name (labels_to_create ! 3) = ''duplicate''"
    by (simp add: labels_to_create_def mk_label_def label_name_def)
  have n16: "label_name (labels_to_create ! 16) = ''wontfix''"
    by (simp add: labels_to_create_def mk_label_def label_name_def)
  have body: "bytes_repr (content unprocessable) = ''b'' @ [CHR 0x27] @ ''already_exists'' @ [CHR 0x27]"
    by (simp add: unprocessable_def bytes_repr_def repr_quote_def esc_byte_def Let_def)
  have d: "status_code created = 201" by (simp add: created_def)
  note T = create_calls_independent [OF duplicate_net_calls a(1) b(1) c,
      of api_url "''octocat''" "''demo''" "[]"]
  let ?run = "fst (create_labels api_url ''octocat'' ''demo'' [] labels_to_create duplicate_net 0)"
  from T have r1: "requests_of ?run = map (post_request api_url ''octocat'' ''demo'' []) labels_to_create"
    by blast
  from T have l3: "printed ?run ! 3 =
      ''Failed to create label: '' @ label_name (labels_to_create ! 3) @ '' - ''
        @ bytes_repr (content unprocessable)"
    by simp
  from T a(2) b(2) have l16: "printed ?run ! 16 =
      (if status_code created = 201
       then ''Successfully created label: '' @ label_name (labels_to_create ! 16)
       else ''Failed to create label: '' @ label_name (labels_to_create ! 16) @ '' - ''
            @ bytes_repr (content created))"
    by blast
  show ?thesis using r1 l3 l16 by (simp add: n3 n16 body d)
qed

text \<open>
  C8 (amended). The catalog is a list of 17 entries, not 16; each is a dict with exactly
  the fields name, color and description, in this order, all strings; every colour is six
  hexadecimal digits, and the names are pairwise distinct.
\<close>

theorem catalog_shape:
  "length labels_to_create = 17 \<and> list_all is_label labels_to_create
   \<and> distinct (map label_name labels_to_create)"
  by (simp add: labels_to_create_def mk_label_def label_name_def is_hex_def)

text \<open>C8 as stated fails: the catalog does not have 16 entries.\<close>

theorem catalog_size_counterexample: "length labels_to_create \<noteq> 16"
  by (simp add: labels_to_create_def)

text \<open>
  C9 (amended). The output does not depend on the token: two runs that differ only in the
  token and receive the same responses print the same lines, end the same way, and make
  the same requests up to the request headers, the only place where the token goes.
\<close>

theorem token_not_in_output:
  "printed (fst (script ow n t1 net)) = printed (fst (script ow n t2 net))
   \<and> map redact (fst (script ow n t1 net)) = map redact (fst (script ow n t2 net))
   \<and> snd (script ow n t1 net) = snd (script ow n t2 net)"
proof -
  note r = script_redact [of ow n t1 net t2]
  from r have "printed (map redact (fst (script ow n t1 net))) =
      printed (map redact (fst (script ow n t2 net)))" by simp
  then have "printed (fst (script ow n t1 net)) = printed (fst (script ow n t2 net))"
    by (simp only: printed_redact)
  with r show ?thesis by simp
qed

text \<open>
  C9 as stated fails: the line of failure prints the response body as it is, so when the
  server's answer quotes the token, a printed status line contains it.
\<close>

theorem token_in_output_counterexample:
  "contains ''ghp_A1''
     (printed (fst (script ''octocat'' ''demo'' ''ghp_A1'' (always bad_credentials))) ! 0)"
proof -
  have "always bad_credentials 0 = Inr bad_credentials" "status_code bad_credentials \<noteq> 200"
    by (simp_all add: always_def bad_credentials_def)
  then have run: "script ''octocat'' ''demo'' ''ghp_A1'' (always bad_credentials) =
     (Sent (list_request api_url ''octocat'' ''demo'' (script_headers ''ghp_A1'')) #
        fst (create_labels api_url ''octocat'' ''demo'' (script_headers ''ghp_A1'') labels_to_create
               (always bad_credentials) 1),
      snd (create_labels api_url ''octocat'' ''demo'' (script_headers ''ghp_A1'') labels_to_create
               (always bad_credentials) 1))"
    by (rule script_not_200)
  obtain ls where c: "labels_to_create = mk_label ''bug'' ''d73a4a''
      ''Indicates a problem that impairs or prevents the functions of the product'' # ls"
    by (simp add: labels_to_create_def)
  have "printed (fst (script ''octocat'' ''demo'' ''ghp_A1'' (always bad_credentials))) ! 0 =
      ''Failed to create label: bug - b'' @ [CHR 0x27] @ ''Bad credentials: ghp_A1'' @ [CHR 0x27]"
    unfolding run c
    by (cases "create_labels api_url ''octocat'' ''demo'' (script_headers ''ghp_A1'') ls
               (always bad_credentials) (Suc 1)")
       (simp add: always_def bad_credentials_def mk_label_def bytes_repr_def repr_quote_def
          esc_byte_def Let_def)
  then show ?thesis by simp
qed

end
